theory Spec2Isabelle
  imports Main "HOL-Library.Sublist"
begin

section \<open>Python strings\<close>

text \<open>
  A Python \<open>str\<close> is a sequence of code points. It is modelled as a \<open>string\<close> whose
  characters stand for the code points 0 to 255 (the Latin-1 range), one \<open>char\<close> per code
  point, so \<open>length\<close> is Python's \<open>len\<close>. On that range \<open>str.lower\<close> maps one character
  to one character, and the character classes below are the ones of CPython 3:
  \<open>str.isalnum\<close> holds for the ASCII letters and digits and for the Latin-1 letters and
  numeric characters; the regular-expression class \<open>[0-9A-Za-z]\<close> (also under
  \<open>re.IGNORECASE\<close>) holds for the ASCII letters and digits only; \<open>\s\<close> is the white space
  of \<open>re\<close> on \<open>str\<close> patterns.
\<close>

definition ascii_alnum :: "char \<Rightarrow> bool" where
  "ascii_alnum c =
     (let n = (of_char c :: nat)
      in (48 \<le> n \<and> n \<le> 57) \<or> (65 \<le> n \<and> n \<le> 90) \<or> (97 \<le> n \<and> n \<le> 122))"

definition isalnum :: "char \<Rightarrow> bool" where
  "isalnum c =
     (let n = (of_char c :: nat)
      in ascii_alnum c \<or> n = 170 \<or> n = 178 \<or> n = 179 \<or> n = 181 \<or> n = 185 \<or> n = 186
         \<or> (188 \<le> n \<and> n \<le> 190) \<or> (192 \<le> n \<and> n \<le> 214) \<or> (216 \<le> n \<and> n \<le> 246)
         \<or> 248 \<le> n)"

definition re_space :: "char \<Rightarrow> bool" where
  "re_space c =
     (let n = (of_char c :: nat)
      in (9 \<le> n \<and> n \<le> 13) \<or> (28 \<le> n \<and> n \<le> 32) \<or> n = 133 \<or> n = 160)"

definition lower_char :: "char \<Rightarrow> char" where
  "lower_char c =
     (let n = (of_char c :: nat)
      in if (65 \<le> n \<and> n \<le> 90) \<or> (192 \<le> n \<and> n \<le> 222 \<and> n \<noteq> 215)
         then char_of (n + 32) else c)"

definition str_lower :: "string \<Rightarrow> string" where
  "str_lower s = map lower_char s"

text \<open>\<open>startswith\<close> is \<^const>\<open>prefix\<close>; the operator \<open>in\<close> on two strings is the search for a
  contiguous occurrence.\<close>

fun str_contains :: "string \<Rightarrow> string \<Rightarrow> bool" where
  "str_contains p [] = (p = [])"
| "str_contains p (c # cs) = (prefix p (c # cs) \<or> str_contains p cs)"

section \<open>The sitekey validator\<close>

text \<open>
  \<open>CloudflareTurnstileExtractor._is_valid_turnstile_sitekey\<close> (cloudflareSolver.py).
  The three early returns and the inner length test are kept as they are written.
\<close>

definition is_valid_turnstile_sitekey :: "string \<Rightarrow> bool" where
  "is_valid_turnstile_sitekey sitekey =
     (if sitekey = [] \<or> length sitekey < 22 \<or> length sitekey > 35 then False
      else if \<not> prefix ''0x'' (str_lower sitekey) then False
      else if length sitekey \<ge> 22 \<and> length sitekey \<le> 30
        then (if list_all isalnum (drop 2 sitekey) then True else False)
      else False)"

section \<open>Errors and JSON values\<close>

text \<open>
  Every exception the modelled code can meet is a value of \<open>error\<close>; a computation that
  may raise returns \<open>error + 'a\<close>, with \<open>Inl\<close> for the exception. \<open>try ... except Exception\<close>
  is a case distinction on that sum.
\<close>

datatype error =
    JSONDecodeError | UnicodeDecodeError | AttributeError | TypeError | ImportError
  | PlaywrightError | RequestError | ServiceError | SolveTimeout

text \<open>
  The value \<open>json.load\<close> returns. A Python \<open>dict\<close> is the list of its items in insertion
  order, read with \<^const>\<open>map_of\<close>. Numbers are the integers (no floats).
\<close>

datatype json =
    JNull | JBool bool | JInt int | JStr string | JArr "json list" | JObj "(string \<times> json) list"

text \<open>\<open>x.get(key, default)\<close>: only a \<open>dict\<close> has the method.\<close>

definition json_get :: "json \<Rightarrow> string \<Rightarrow> json \<Rightarrow> error + json" where
  "json_get x k d =
     (case x of
        JObj kvs \<Rightarrow> Inr (case map_of kvs k of None \<Rightarrow> d | Some v \<Rightarrow> v)
      | _ \<Rightarrow> Inl AttributeError)"

text \<open>Truth value of a Python object in a condition.\<close>

fun truthy :: "json \<Rightarrow> bool" where
  "truthy JNull = False"
| "truthy (JBool b) = b"
| "truthy (JInt n) = (n \<noteq> 0)"
| "truthy (JStr s) = (s \<noteq> [])"
| "truthy (JArr xs) = (xs \<noteq> [])"
| "truthy (JObj kvs) = (kvs \<noteq> [])"

text \<open>Iteration over a Python object: a list gives its elements, a dict its keys, a string
  its characters; the other values are not iterable.\<close>

definition py_iter :: "json \<Rightarrow> error + json list" where
  "py_iter x =
     (case x of
        JArr xs \<Rightarrow> Inr xs
      | JObj kvs \<Rightarrow> Inr (map (\<lambda>kv. JStr (fst kv)) kvs)
      | JStr s \<Rightarrow> Inr (map (\<lambda>c. JStr [c]) s)
      | _ \<Rightarrow> Inl TypeError)"

section \<open>Session storage (cloudflare\_utils.py)\<close>

text \<open>
  A \<open>pathlib\<close> path is the list of its parts. Building a POSIX path from a string splits it
  at the slashes and drops the empty parts and the parts equal to a single dot.
  The file system is a map from paths to file contents; opening, reading and unlinking an
  existing file succeed (faults of the operating system are outside the model).
\<close>

type_synonym path = "string list"

type_synonym files = "path \<rightharpoonup> string"

fun split_slash :: "string \<Rightarrow> string list" where
  "split_slash [] = [[]]"
| "split_slash (c # cs) =
     (if c = CHR ''/'' then [] # split_slash cs
      else (case split_slash cs of
              p # ps \<Rightarrow> (c # p) # ps
            | [] \<Rightarrow> [[c]]))"

definition path_parts :: "string \<Rightarrow> path" where
  "path_parts s = filter (\<lambda>p. p \<noteq> [] \<and> p \<noteq> ''.'') (split_slash s)"

text \<open>The operator \<open>/\<close> of \<open>pathlib\<close>: an absolute right-hand side replaces the left one.\<close>

definition path_join :: "path \<Rightarrow> string \<Rightarrow> path" where
  "path_join p s = (if prefix ''/'' s then ''/'' # path_parts s else p @ path_parts s)"

definition SESSION_DIR :: path where
  "SESSION_DIR = path_parts ''.sessions''"

definition replace_dot :: "string \<Rightarrow> string" where
  "replace_dot domain = map (\<lambda>c. if c = CHR ''.'' then CHR ''_'' else c) domain"

definition get_session_path :: "string \<Rightarrow> path" where
  "get_session_path domain =
     (let safe_domain = replace_dot domain
      in path_join SESSION_DIR (''cloudflare_'' @ safe_domain @ ''.json''))"

text \<open>
  \<open>save_cloudflare_session\<close>: \<open>context.storage_state(path=...)\<close> writes the serialised
  state of the browser context, or raises; the first argument is that outcome.
\<close>

definition save_cloudflare_session :: "error + string \<Rightarrow> files \<Rightarrow> string \<Rightarrow> bool \<times> files" where
  "save_cloudflare_session storage_state fs domain =
     (let session_path = get_session_path domain
      in case storage_state of
           Inl e \<Rightarrow> (False, fs)
         | Inr text \<Rightarrow> (True, fs(session_path \<mapsto> text)))"

text \<open>\<open>any(c.get('name') == 'cf_clearance' for c in cookies)\<close>, which stops at the first
  cookie that has the name and raises at an element without the method \<open>get\<close>.\<close>

fun any_cf_clearance :: "json list \<Rightarrow> error + bool" where
  "any_cf_clearance [] = Inr False"
| "any_cf_clearance (c # cs) =
     (case json_get c ''name'' JNull of
        Inl e \<Rightarrow> Inl e
      | Inr v \<Rightarrow> if v = JStr ''cf_clearance'' then Inr True else any_cf_clearance cs)"

text \<open>
  \<open>load_cloudflare_session\<close>. \<open>json_load\<close> is \<open>json.load\<close> on the text of the file and
  \<open>new_context\<close> is \<open>browser.new_context(storage_state=...)\<close>; both belong to libraries
  and are parameters. \<open>load_body\<close> is the body of the outer \<open>try\<close>: it returns the exception
  that leaves it, and the file system as it is at that moment.
\<close>

definition load_body ::
  "(string \<Rightarrow> error + json) \<Rightarrow> (path \<Rightarrow> error + 'ctx) \<Rightarrow> files \<Rightarrow> string
    \<Rightarrow> (error + 'ctx option) \<times> files" where
  "load_body json_load new_context fs domain =
     (let session_path = get_session_path domain
      in case fs session_path of
           None \<Rightarrow> (Inr None, fs)
         | Some text \<Rightarrow>
            (case json_load text of
               Inl e \<Rightarrow>
                 (if e = JSONDecodeError then (Inr None, fs(session_path := None))
                  else (Inl e, fs))
             | Inr session_data \<Rightarrow>
                (case json_get session_data ''cookies'' (JArr []) of
                   Inl e \<Rightarrow> (Inl e, fs)
                 | Inr cookies \<Rightarrow>
                    (case py_iter cookies of
                       Inl e \<Rightarrow> (Inl e, fs)
                     | Inr cs \<Rightarrow>
                        (case any_cf_clearance cs of
                           Inl e \<Rightarrow> (Inl e, fs)
                         | Inr has_cf_clearance \<Rightarrow>
                            (if \<not> has_cf_clearance then (Inr None, fs)
                             else (case new_context session_path of
                                     Inl e \<Rightarrow> (Inl e, fs)
                                   | Inr context \<Rightarrow> (Inr (Some context), fs))))))))"

definition load_cloudflare_session ::
  "(string \<Rightarrow> error + json) \<Rightarrow> (path \<Rightarrow> error + 'ctx) \<Rightarrow> files \<Rightarrow> string
    \<Rightarrow> 'ctx option \<times> files" where
  "load_cloudflare_session json_load new_context fs domain =
     (case load_body json_load new_context fs domain of
        (Inl e, fs') \<Rightarrow> (None, fs')
      | (Inr r, fs') \<Rightarrow> (r, fs'))"

text \<open>\<open>clear_session\<close>.\<close>

definition clear_session :: "files \<Rightarrow> string \<Rightarrow> bool \<times> files" where
  "clear_session fs domain =
     (let session_path = get_session_path domain
      in if fs session_path \<noteq> None then (True, fs(session_path := None))
         else (False, fs))"

section \<open>Challenge detection (cloudflare\_utils.py)\<close>

text \<open>
  What \<open>is_session_valid\<close> reads from the page, in the order in which it reads it: the URL
  at entry, the settle delay, the markup, the rendered text and the URL after the delay.
  Each read either raises or returns.
\<close>

record page =
  url_first :: "error + string"
  settle :: "error option"
  content :: "error + string"
  inner_text :: "error + string"
  url_final :: "error + string"

definition challenge_indicators :: "string list" where
  "challenge_indicators =
     [''checking your browser'', ''just a moment'', ''cf-challenge'',
      ''cf-browser-verification'', ''turnstile'']"

text \<open>The inner \<open>try\<close>: \<open>Inr True\<close> when an indicator is found (the function then returns
  \<open>False\<close>), \<open>Inr False\<close> when none is, \<open>Inl\<close> when a read raised.\<close>

definition inspect_content :: "page \<Rightarrow> error + bool" where
  "inspect_content p =
     (case settle p of
        Some e \<Rightarrow> Inl e
      | None \<Rightarrow>
         (case content p of
            Inl e \<Rightarrow> Inl e
          | Inr page_content \<Rightarrow>
             (case inner_text p of
                Inl e \<Rightarrow> Inl e
              | Inr t \<Rightarrow>
                 (let page_text = str_lower t
                  in Inr (list_ex (\<lambda>indicator.
                            str_contains indicator (str_lower page_text)
                            \<or> str_contains indicator (str_lower page_content))
                          challenge_indicators)))))"

definition is_session_valid :: "page \<Rightarrow> string \<Rightarrow> bool" where
  "is_session_valid p challenge_url_pattern =
     (case url_first p of
        Inl e \<Rightarrow> False
      | Inr current_url \<Rightarrow>
         (if str_contains challenge_url_pattern current_url then False
          else (case inspect_content p of
                  Inr True \<Rightarrow> False
                | _ \<Rightarrow>
                   (case url_final p of
                      Inl e \<Rightarrow> False
                    | Inr final_url \<Rightarrow>
                       (if str_contains challenge_url_pattern final_url then False
                        else True)))))"

definition default_pattern :: string where
  "default_pattern = ''challenges.cloudflare.com''"

section \<open>Sitekey extraction (cloudflareSolver.py)\<close>

subsection \<open>The regular expressions\<close>

text \<open>
  Each \<open>re.search\<close> of the extractor is a function that scans the text from the left and
  returns the group of the first position at which the pattern matches. In every pattern
  the repeated classes and the text that must follow them are disjoint, so the greedy match
  is the only candidate at a position: giving back characters cannot turn a failure into a
  match.

  \<open>match_sitekey_run\<close> is \<open>0x[0-9A-Za-z]{20,}\<close> (with \<open>re.IGNORECASE\<close>) at the start of
  the text: the matched text and the rest.
\<close>

definition match_sitekey_run :: "string \<Rightarrow> (string \<times> string) option" where
  "match_sitekey_run s =
     (case s of
        a # b # r \<Rightarrow>
          if a = CHR ''0'' \<and> (b = CHR ''x'' \<or> b = CHR ''X'')
             \<and> 20 \<le> length (takeWhile ascii_alnum r)
          then Some (a # b # takeWhile ascii_alnum r, dropWhile ascii_alnum r)
          else None
      | _ \<Rightarrow> None)"

text \<open>\<open>pattern = r'/(0x[0-9A-Za-z]{20,})/'\<close>\<close>

fun search_path_segment :: "string \<Rightarrow> string option" where
  "search_path_segment [] = None"
| "search_path_segment (c # cs) =
     (if c = CHR ''/'' then
        (case match_sitekey_run cs of
           Some (g, r) \<Rightarrow> if prefix ''/'' r then Some g else search_path_segment cs
         | None \<Rightarrow> search_path_segment cs)
      else search_path_segment cs)"

text \<open>\<open>pattern2 = r'/(0x[0-9A-Za-z]{20,})(?:/|$)'\<close>; \<open>$\<close> matches at the end of the text and
  before a line feed that ends the text.\<close>

fun search_path_end :: "string \<Rightarrow> string option" where
  "search_path_end [] = None"
| "search_path_end (c # cs) =
     (if c = CHR ''/'' then
        (case match_sitekey_run cs of
           Some (g, r) \<Rightarrow>
             if prefix ''/'' r \<or> r = [] \<or> r = [CHR 0x0A] then Some g else search_path_end cs
         | None \<Rightarrow> search_path_end cs)
      else search_path_end cs)"

text \<open>\<open>pattern3 = r'sitekey=([^&]+)'\<close>\<close>

fun search_query_param :: "string \<Rightarrow> string option" where
  "search_query_param [] = None"
| "search_query_param (c # cs) =
     (let g = takeWhile (\<lambda>x. x \<noteq> CHR ''&'') (drop 8 (c # cs))
      in if str_lower (take 8 (c # cs)) = ''sitekey='' \<and> g \<noteq> [] then Some g
         else search_query_param cs)"

text \<open>\<open>re.search(r'0x[0-9A-Za-z]{20,}', text, re.IGNORECASE)\<close>, group 0.\<close>

fun search_sitekey_run :: "string \<Rightarrow> string option" where
  "search_sitekey_run [] = None"
| "search_sitekey_run (c # cs) =
     (case match_sitekey_run (c # cs) of
        Some (g, r) \<Rightarrow> Some g
      | None \<Rightarrow> search_sitekey_run cs)"

text \<open>\<open>re.search(r'sitekey["\']?\s*[:=]\s*["\']?([^"\'\s]+)', text, re.IGNORECASE)\<close>,
  group 1. The two quote characters are the code points 0x22 and 0x27.\<close>

definition is_quote :: "char \<Rightarrow> bool" where
  "is_quote c = (c = CHR 0x22 \<or> c = CHR 0x27)"

definition skip_quote :: "string \<Rightarrow> string" where
  "skip_quote s = (case s of q # r \<Rightarrow> if is_quote q then r else s | [] \<Rightarrow> [])"

definition match_sitekey_assign :: "string \<Rightarrow> string option" where
  "match_sitekey_assign s =
     (if str_lower (take 7 s) = ''sitekey'' then
        (case dropWhile re_space (skip_quote (drop 7 s)) of
           d # r \<Rightarrow>
             if d = CHR '':'' \<or> d = CHR ''='' then
               (let g = takeWhile (\<lambda>x. \<not> is_quote x \<and> \<not> re_space x)
                          (skip_quote (dropWhile re_space r))
                in if g \<noteq> [] then Some g else None)
             else None
         | [] \<Rightarrow> None)
      else None)"

fun search_sitekey_assign :: "string \<Rightarrow> string option" where
  "search_sitekey_assign [] = None"
| "search_sitekey_assign (c # cs) =
     (case match_sitekey_assign (c # cs) of
        Some g \<Rightarrow> Some g
      | None \<Rightarrow> search_sitekey_assign cs)"

subsection \<open>Extraction from a URL and from a captured request or response\<close>

text \<open>\<open>if match: sitekey = match.group(...); if self._is_valid_turnstile_sitekey(sitekey):
  return sitekey\<close>: the candidate of a search, kept only if it validates.\<close>

definition validated :: "string option \<Rightarrow> string option" where
  "validated m =
     (case m of
        Some sitekey \<Rightarrow> if is_valid_turnstile_sitekey sitekey then Some sitekey else None
      | None \<Rightarrow> None)"

definition extract_sitekey_from_url :: "string \<Rightarrow> string option" where
  "extract_sitekey_from_url url =
     (if url = [] then None
      else if \<not> str_contains ''turnstile'' (str_lower url) then None
      else (case validated (search_path_segment url) of
              Some sitekey \<Rightarrow> Some sitekey
            | None \<Rightarrow>
               (case validated (search_path_end url) of
                  Some sitekey \<Rightarrow> Some sitekey
                | None \<Rightarrow>
                   (case validated (search_query_param url) of
                      Some sitekey \<Rightarrow> Some sitekey
                    | None \<Rightarrow> None))))"

text \<open>
  The dictionaries \<open>request_info\<close> and \<open>response_info\<close>. A key that is absent and a key
  whose value is \<open>None\<close> are both \<open>None\<close> here: the code reads them with \<open>get\<close> and tests
  the truth value. The headers keep their order.
\<close>

record net_data =
  nd_url :: string
  nd_method :: "string option"
  nd_status :: "int option"
  nd_headers :: "(string \<times> string) list"
  nd_post_data :: "string option"
  nd_body :: "string option"

text \<open>\<open>if sitekey and self._is_valid_turnstile_sitekey(sitekey): return sitekey\<close>\<close>

definition checked :: "string option \<Rightarrow> string option" where
  "checked m =
     (case m of
        Some sitekey \<Rightarrow>
          if sitekey \<noteq> [] \<and> is_valid_turnstile_sitekey sitekey then Some sitekey else None
      | None \<Rightarrow> None)"

text \<open>The two searches made in a POST body and in a response body.\<close>

definition search_text :: "string \<Rightarrow> string option" where
  "search_text t =
     (case validated (search_sitekey_run t) of
        Some candidate \<Rightarrow> Some candidate
      | None \<Rightarrow> validated (search_sitekey_assign t))"

text \<open>The loop over the headers.\<close>

fun check_headers :: "(string \<times> string) list \<Rightarrow> string option" where
  "check_headers [] = None"
| "check_headers ((key, v) # hs) =
     (if str_contains ''sitekey'' (str_lower key) \<and> is_valid_turnstile_sitekey v then Some v
      else (case validated (search_sitekey_run v) of
              Some candidate \<Rightarrow> Some candidate
            | None \<Rightarrow> check_headers hs))"

definition extract_sitekey_from_network_data :: "net_data \<Rightarrow> string option" where
  "extract_sitekey_from_network_data d =
     (let url = nd_url d;
          tagged = str_contains ''turnstile'' (str_lower url)
      in case (if tagged \<and> str_contains ''0x'' (str_lower url)
               then checked (extract_sitekey_from_url url) else None) of
           Some sitekey \<Rightarrow> Some sitekey
         | None \<Rightarrow>
            (case checked (extract_sitekey_from_url url) of
               Some sitekey \<Rightarrow> Some sitekey
             | None \<Rightarrow>
                (case (case nd_post_data d of
                         Some post_data \<Rightarrow>
                           if post_data \<noteq> [] \<and> tagged then search_text post_data else None
                       | None \<Rightarrow> None) of
                   Some candidate \<Rightarrow> Some candidate
                 | None \<Rightarrow>
                    (case (case nd_body d of
                             Some body \<Rightarrow>
                               if body \<noteq> [] \<and> tagged then search_text body else None
                           | None \<Rightarrow> None) of
                       Some candidate \<Rightarrow> Some candidate
                     | None \<Rightarrow> check_headers (nd_headers d)))))"

subsection \<open>The extractor object\<close>

record extractor =
  captured_requests :: "net_data list"
  sitekey_from_network :: "string option"
  monitoring_setup :: bool

definition new_extractor :: extractor where
  "new_extractor =
     \<lparr>captured_requests = [], sitekey_from_network = None, monitoring_setup = False\<rparr>"

text \<open>The test both handlers make on the URL of an event.\<close>

definition relevant_url :: "string \<Rightarrow> bool" where
  "relevant_url url =
     (str_contains ''challenges.cloudflare.com'' url
      \<or> str_contains ''turnstile'' (str_lower url))"

text \<open>
  \<open>handle_request\<close> and \<open>handle_response\<close>, the listeners that \<open>setup_network_monitoring\<close>
  installs. The arguments are what the handler reads from the event: URL, method or
  status, headers, and the POST data or the body (\<open>None\<close> when there is none or when it
  cannot be read).
\<close>

definition handle_request ::
  "extractor \<Rightarrow> string \<Rightarrow> string \<Rightarrow> (string \<times> string) list \<Rightarrow> string option \<Rightarrow> extractor" where
  "handle_request ext url method hdrs post_data =
     (if relevant_url url then
        (let request_info =
               \<lparr>nd_url = url, nd_method = Some method, nd_status = None, nd_headers = hdrs,
                nd_post_data = post_data, nd_body = None\<rparr>;
             ext1 = ext\<lparr>captured_requests := captured_requests ext @ [request_info]\<rparr>
         in case extract_sitekey_from_network_data request_info of
              Some sitekey \<Rightarrow>
                if sitekey \<noteq> [] then ext1\<lparr>sitekey_from_network := Some sitekey\<rparr> else ext1
            | None \<Rightarrow> ext1)
      else ext)"

definition handle_response ::
  "extractor \<Rightarrow> string \<Rightarrow> int \<Rightarrow> (string \<times> string) list \<Rightarrow> string option \<Rightarrow> extractor" where
  "handle_response ext url st hdrs body =
     (if relevant_url url then
        (let response_info =
               \<lparr>nd_url = url, nd_method = None, nd_status = Some st, nd_headers = hdrs,
                nd_post_data = None,
                nd_body = (case body of
                             Some b \<Rightarrow> if b \<noteq> [] then Some (take 1000 b) else None
                           | None \<Rightarrow> None)\<rparr>
         in case extract_sitekey_from_network_data response_info of
              Some sitekey \<Rightarrow>
                if sitekey \<noteq> [] then ext\<lparr>sitekey_from_network := Some sitekey\<rparr> else ext
            | None \<Rightarrow> ext)
      else ext)"

datatype net_event =
    Request string string "(string \<times> string) list" "string option"
  | Response string int "(string \<times> string) list" "string option"

fun deliver :: "extractor \<Rightarrow> net_event list \<Rightarrow> extractor" where
  "deliver ext [] = ext"
| "deliver ext (Request url method hdrs post_data # evs) =
     deliver (handle_request ext url method hdrs post_data) evs"
| "deliver ext (Response url st hdrs body # evs) =
     deliver (handle_response ext url st hdrs body) evs"

text \<open>One of the loops over captured requests: the first request whose extraction gives a
  non-empty validated sitekey.\<close>

fun scan_requests :: "net_data list \<Rightarrow> string option" where
  "scan_requests [] = None"
| "scan_requests (req # reqs) =
     (case checked (extract_sitekey_from_network_data req) of
        Some sitekey \<Rightarrow> Some sitekey
      | None \<Rightarrow> scan_requests reqs)"

definition is_turnstile_request :: "net_data \<Rightarrow> bool" where
  "is_turnstile_request r = str_contains ''turnstile'' (str_lower (nd_url r))"

text \<open>\<open>if self.sitekey_from_network:\<close>\<close>

definition cached :: "extractor \<Rightarrow> bool" where
  "cached ext = (case sitekey_from_network ext of Some k \<Rightarrow> k \<noteq> [] | None \<Rightarrow> False)"

text \<open>
  \<open>get_sitekey\<close>. \<open>arriving\<close> are the events that the listeners receive while the method
  waits in \<open>page.wait_for_timeout\<close>, and \<open>wait_fault\<close> is the exception of that wait, if
  it raises. The result is the returned value, or the exception, and the extractor after
  the call.
\<close>

definition get_sitekey ::
  "extractor \<Rightarrow> net_event list \<Rightarrow> error option \<Rightarrow> (error + string option) \<times> extractor" where
  "get_sitekey ext arriving wait_fault =
     (if cached ext then (Inr (sitekey_from_network ext), ext)
      else
        (let turnstile_requests = filter is_turnstile_request (captured_requests ext);
             other_requests = filter (\<lambda>r. \<not> is_turnstile_request r) (captured_requests ext)
         in case (if captured_requests ext \<noteq> []
                  then (case scan_requests turnstile_requests of
                          Some sitekey \<Rightarrow> Some sitekey
                        | None \<Rightarrow> scan_requests other_requests)
                  else None) of
              Some sitekey \<Rightarrow> (Inr (Some sitekey), ext\<lparr>sitekey_from_network := Some sitekey\<rparr>)
            | None \<Rightarrow>
               (let ext1 = ext\<lparr>monitoring_setup := True\<rparr>;
                    ext2 = deliver ext1 arriving
                in case wait_fault of
                     Some e \<Rightarrow> (Inl e, ext2)
                   | None \<Rightarrow>
                      (if cached ext2 then (Inr (sitekey_from_network ext2), ext2)
                       else
                         (let turnstile_requests2 =
                                filter is_turnstile_request (captured_requests ext2);
                              other_requests2 =
                                filter (\<lambda>r. r \<notin> set turnstile_requests2) (captured_requests ext2)
                          in case (if captured_requests ext2 \<noteq> []
                                   then scan_requests (turnstile_requests2 @ other_requests2)
                                   else None) of
                               Some sitekey \<Rightarrow>
                                 (Inr (Some sitekey), ext2\<lparr>sitekey_from_network := Some sitekey\<rparr>)
                             | None \<Rightarrow> (Inr None, ext2))))))"

text \<open>
  The states an extractor can be in: the fields are written by the constructor, by the two
  listeners, by \<open>setup_network_monitoring\<close> and by \<open>get_sitekey\<close> only. The first rule
  starts from any buffer of captured requests with an empty cache; the constructor gives
  the empty buffer.
\<close>

inductive reachable :: "extractor \<Rightarrow> bool" where
  reach_fresh: "reachable \<lparr>captured_requests = buffer, sitekey_from_network = None,
                     monitoring_setup = m\<rparr>"
| reach_setup: "reachable ext \<Longrightarrow> reachable (ext\<lparr>monitoring_setup := True\<rparr>)"
| reach_request: "reachable ext \<Longrightarrow> reachable (handle_request ext url method hdrs post_data)"
| reach_response: "reachable ext \<Longrightarrow> reachable (handle_response ext url st hdrs body)"
| reach_call: "reachable ext \<Longrightarrow> get_sitekey ext arriving wait_fault = (r, ext')
           \<Longrightarrow> reachable ext'"

text \<open>The invariant of the cache: it is empty or holds a string that the validator accepts.\<close>

definition cache_valid :: "extractor \<Rightarrow> bool" where
  "cache_valid ext =
     (case sitekey_from_network ext of
        None \<Rightarrow> True
      | Some k \<Rightarrow> is_valid_turnstile_sitekey k)"


section \<open>Solving the challenge (cloudflareSolver.py)\<close>

text \<open>
  \<open>solve_cloudflare_challenge\<close> talks to the environment, to the page and to the solving
  service. The environment is what the module reads at entry: the variable
  \<open>TWOCAPTCHA_API_KEY\<close>, the flag \<open>TWOCAPTCHA_AVAILABLE\<close> and whether \<open>import requests\<close>
  succeeds.
\<close>

record solver_env =
  api_key :: "string option"
  twocaptcha_available :: bool
  requests_importable :: bool

text \<open>
  Each call to the page or to the service is an oracle that raises or returns; the calls
  made inside the polling loop take the number of the attempt. \<open>w_create_task\<close> and
  \<open>w_get_task_result\<close> stand for \<open>requests.post\<close> followed by \<open>raise_for_status\<close> (for the
  first) and \<open>json()\<close>. \<open>navigator.userAgent\<close> is a string.
\<close>

record world =
  w_page_url :: "error + string"
  w_navigator_user_agent :: "error + string"
  w_create_task :: "json \<Rightarrow> error + json"
  w_get_task_result :: "nat \<Rightarrow> json \<Rightarrow> error + json"
  w_current_user_agent :: "nat \<Rightarrow> error + string"
  w_override_user_agent :: "nat \<Rightarrow> json \<Rightarrow> error option"
  w_inject_token :: "nat \<Rightarrow> json \<Rightarrow> error + json"
  w_settle_after_injection :: "nat \<Rightarrow> error option"
  w_page_after_injection :: "nat \<Rightarrow> page"
  w_storage_state :: "nat \<Rightarrow> error + string"

text \<open>What the call has done so far: the time spent in \<open>asyncio.sleep\<close>, the requests sent
  to the service in order, and the session files.\<close>

datatype endpoint = CreateTask | GetTaskResult

record solve_state =
  st_slept :: nat
  st_http_log :: "(endpoint \<times> json) list"
  st_files :: files

definition poll_count :: "solve_state \<Rightarrow> nat" where
  "poll_count st = length (filter (\<lambda>r. fst r = GetTaskResult) (st_http_log st))"

definition max_attempts :: nat where
  "max_attempts = 30"

definition poll_interval :: nat where
  "poll_interval = 5"

text \<open>\<open>v and v not in [None, 'null', '']\<close>\<close>

definition optional_param :: "json \<Rightarrow> bool" where
  "optional_param v = (truthy v \<and> v \<noteq> JNull \<and> v \<noteq> JStr ''null'' \<and> v \<noteq> JStr [])"

definition add_optional :: "(string \<times> json) list \<Rightarrow> string \<Rightarrow> json \<Rightarrow> (string \<times> json) list" where
  "add_optional payload name v = (if optional_param v then payload @ [(name, v)] else payload)"

definition build_task_payload :: "string \<Rightarrow> string \<Rightarrow> string \<Rightarrow> json \<Rightarrow> error + json" where
  "build_task_payload website_url sitekey browser_user_agent turnstile_params =
     (let task_payload =
            [(''type'', JStr ''TurnstileTaskProxyless''), (''websiteURL'', JStr website_url),
             (''websiteKey'', JStr sitekey)]
            @ (if browser_user_agent \<noteq> [] then [(''userAgent'', JStr browser_user_agent)] else [])
      in if truthy turnstile_params then
           (case json_get turnstile_params ''action'' JNull of
              Inl e \<Rightarrow> Inl e
            | Inr action \<Rightarrow>
               (case json_get turnstile_params ''cData'' JNull of
                  Inl e \<Rightarrow> Inl e
                | Inr c_data \<Rightarrow>
                   (case json_get turnstile_params ''chlPageData'' JNull of
                      Inl e \<Rightarrow> Inl e
                    | Inr chl_page_data \<Rightarrow>
                        Inr (JObj (add_optional
                                    (add_optional (add_optional task_payload ''action'' action)
                                       ''data'' c_data)
                                    ''pagedata'' chl_page_data)))))
         else Inr (JObj task_payload))"

text \<open>\<open>create_result.get('errorId') != 0\<close> is false for the integer 0 and for \<open>False\<close>.\<close>

definition py_is_zero :: "json \<Rightarrow> bool" where
  "py_is_zero v = (v = JInt 0 \<or> v = JBool False)"

text \<open>
  The branch of a poll that is \<open>ready\<close> and carries a token: align the user agent, call the
  captured callback, wait, check the page and save the session. \<open>Inr True\<close> is the
  \<open>return True\<close>; \<open>Inr False\<close> means that the branch ends without returning, and the loop
  goes on.
\<close>

definition deliver_token ::
  "world \<Rightarrow> nat \<Rightarrow> json \<Rightarrow> json \<Rightarrow> string \<Rightarrow> solve_state \<Rightarrow> (error + bool) \<times> solve_state" where
  "deliver_token w attempt solution token domain st =
     (case json_get solution ''userAgent'' JNull of
        Inl e \<Rightarrow> (Inl e, st)
      | Inr user_agent \<Rightarrow>
         (case (if truthy user_agent then
                  (case w_current_user_agent w attempt of
                     Inl e \<Rightarrow> Some e
                   | Inr current_ua \<Rightarrow>
                       if JStr current_ua \<noteq> user_agent
                       then w_override_user_agent w attempt user_agent else None)
                else None) of
            Some e \<Rightarrow> (Inl e, st)
          | None \<Rightarrow>
             (case w_inject_token w attempt token of
                Inl e \<Rightarrow> (Inl e, st)
              | Inr injection_result \<Rightarrow>
                 (case json_get injection_result ''success'' JNull of
                    Inl e \<Rightarrow> (Inl e, st)
                  | Inr success \<Rightarrow>
                     (if truthy success then
                        (case w_settle_after_injection w attempt of
                           Some e \<Rightarrow> (Inl e, st)
                         | None \<Rightarrow>
                            (if is_session_valid (w_page_after_injection w attempt) default_pattern
                             then (Inr True,
                                   st\<lparr>st_files :=
                                        snd (save_cloudflare_session (w_storage_state w attempt)
                                               (st_files st) domain)\<rparr>)
                             else (Inr False, st)))
                      else (Inr False, st))))))"

text \<open>
  One pass through the body of the loop \<open>for attempt in range(30)\<close>: sleep, poll, and act
  on the status. \<open>Inr True\<close> is the \<open>return True\<close>, \<open>Inr False\<close> the end of the pass without
  a return (the loop goes on), \<open>Inl\<close> an exception.
\<close>

definition poll_once ::
  "world \<Rightarrow> string \<Rightarrow> json \<Rightarrow> string \<Rightarrow> nat \<Rightarrow> solve_state \<Rightarrow> (error + bool) \<times> solve_state" where
  "poll_once w key task_id domain attempt st =
     (let payload = JObj [(''clientKey'', JStr key), (''taskId'', task_id)];
          st1 = st\<lparr>st_slept := st_slept st + poll_interval,
                   st_http_log := st_http_log st @ [(GetTaskResult, payload)]\<rparr>
      in case w_get_task_result w attempt payload of
           Inl e \<Rightarrow> (Inl e, st1)
         | Inr result_data \<Rightarrow>
            (case json_get result_data ''status'' JNull of
               Inl e \<Rightarrow> (Inl e, st1)
             | Inr status \<Rightarrow>
                (if status = JStr ''ready'' then
                   (case json_get result_data ''solution'' (JObj []) of
                      Inl e \<Rightarrow> (Inl e, st1)
                    | Inr solution \<Rightarrow>
                       (case json_get solution ''token'' JNull of
                          Inl e \<Rightarrow> (Inl e, st1)
                        | Inr token \<Rightarrow>
                           (if truthy token
                            then deliver_token w attempt solution token domain st1
                            else (Inr False, st1))))
                 else if status = JStr ''processing'' then (Inr False, st1)
                 else (Inl ServiceError, st1))))"

text \<open>
  The loop, with the number of attempts that remain as the first numeric argument and the
  index of the attempt as the second; when no attempt remains, the statement after the loop
  raises the timeout.
\<close>

fun poll_loop ::
  "world \<Rightarrow> string \<Rightarrow> json \<Rightarrow> string \<Rightarrow> nat \<Rightarrow> nat \<Rightarrow> solve_state
    \<Rightarrow> (error + bool) \<times> solve_state" where
  "poll_loop w key task_id domain 0 attempt st = (Inl SolveTimeout, st)"
| "poll_loop w key task_id domain (Suc remaining) attempt st =
     (case poll_once w key task_id domain attempt st of
        (Inl e, st') \<Rightarrow> (Inl e, st')
      | (Inr returned, st') \<Rightarrow>
          if returned then (Inr True, st')
          else poll_loop w key task_id domain remaining (Suc attempt) st')"

text \<open>The body of the \<open>try\<close>.\<close>

definition solve_body ::
  "string \<Rightarrow> world \<Rightarrow> files \<Rightarrow> string \<Rightarrow> string \<Rightarrow> json \<Rightarrow> (error + bool) \<times> solve_state" where
  "solve_body key w files0 domain sitekey turnstile_params =
     (let st0 = \<lparr>st_slept = 0, st_http_log = [], st_files = files0\<rparr>
      in case w_page_url w of
           Inl e \<Rightarrow> (Inl e, st0)
         | Inr website_url \<Rightarrow>
            (case w_navigator_user_agent w of
               Inl e \<Rightarrow> (Inl e, st0)
             | Inr browser_user_agent \<Rightarrow>
                (case build_task_payload website_url sitekey browser_user_agent
                        turnstile_params of
                   Inl e \<Rightarrow> (Inl e, st0)
                 | Inr task_payload \<Rightarrow>
                    (let request_payload =
                           JObj [(''clientKey'', JStr key), (''task'', task_payload)];
                         st1 = st0\<lparr>st_http_log := [(CreateTask, request_payload)]\<rparr>
                     in case w_create_task w request_payload of
                          Inl e \<Rightarrow> (Inl e, st1)
                        | Inr create_result \<Rightarrow>
                           (case json_get create_result ''errorId'' JNull of
                              Inl e \<Rightarrow> (Inl e, st1)
                            | Inr error_id \<Rightarrow>
                               (if \<not> py_is_zero error_id then (Inl ServiceError, st1)
                                else (case json_get create_result ''taskId'' JNull of
                                        Inl e \<Rightarrow> (Inl e, st1)
                                      | Inr task_id \<Rightarrow>
                                          poll_loop w key task_id domain max_attempts 0 st1)))))))"

text \<open>
  \<open>solve_cloudflare_challenge\<close>: the guard on the credential, the import, and the \<open>try\<close>
  whose \<open>except Exception\<close> turns every exception of the body into \<open>False\<close>. Only the
  import can raise out of the function.
\<close>

definition solve_cloudflare_challenge ::
  "solver_env \<Rightarrow> world \<Rightarrow> files \<Rightarrow> string \<Rightarrow> string \<Rightarrow> json \<Rightarrow> error + bool \<times> solve_state" where
  "solve_cloudflare_challenge env w files0 domain sitekey turnstile_params =
     (let st0 = \<lparr>st_slept = 0, st_http_log = [], st_files = files0\<rparr>
      in case api_key env of
           None \<Rightarrow> Inr (False, st0)
         | Some key \<Rightarrow>
            (if key = [] \<or> \<not> twocaptcha_available env then Inr (False, st0)
             else if \<not> requests_importable env then Inl ImportError
             else (case solve_body key w files0 domain sitekey turnstile_params of
                     (Inl e, st) \<Rightarrow> Inr (False, st)
                   | (Inr returned, st) \<Rightarrow> Inr (returned, st))))"

section \<open>Properties of the string primitives\<close>

lemma str_contains_iff: "str_contains p s \<longleftrightarrow> (\<exists>a b. s = a @ p @ b)"
proof (induction s)
  case Nil
  then show ?case by auto
next
  case (Cons c cs)
  show ?case
  proof
    assume "str_contains p (c # cs)"
    then consider "prefix p (c # cs)" | "str_contains p cs" by auto
    then show "\<exists>a b. c # cs = a @ p @ b"
    proof cases
      case 1
      then obtain b where "c # cs = p @ b" by (auto simp: prefix_def)
      then have "c # cs = [] @ p @ b" by simp
      then show ?thesis by blast
    next
      case 2
      with Cons.IH obtain a b where "cs = a @ p @ b" by auto
      then have "c # cs = (c # a) @ p @ b" by simp
      then show ?thesis by blast
    qed
  next
    assume "\<exists>a b. c # cs = a @ p @ b"
    then obtain a b where ab: "c # cs = a @ p @ b" by auto
    show "str_contains p (c # cs)"
    proof (cases a)
      case Nil
      with ab have "prefix p (c # cs)" by (simp add: prefix_def)
      then show ?thesis by simp
    next
      case (Cons x a')
      with ab have "cs = a' @ p @ b" by simp
      with Cons.IH have "str_contains p cs" by blast
      then show ?thesis by simp
    qed
  qed
qed

lemma of_char_lower:
  "(of_char (lower_char c) :: nat) =
     (if (65 \<le> (of_char c :: nat) \<and> (of_char c :: nat) \<le> 90)
         \<or> (192 \<le> (of_char c :: nat) \<and> (of_char c :: nat) \<le> 222 \<and> (of_char c :: nat) \<noteq> 215)
      then of_char c + 32 else of_char c)"
  by (auto simp: lower_char_def Let_def)

lemma char_eq_nat: "c = d \<longleftrightarrow> (of_char c :: nat) = of_char d"
  by simp

lemma lower_char_0 [simp]: "lower_char c = CHR ''0'' \<longleftrightarrow> c = CHR ''0''"
  by (simp add: char_eq_nat [of _ "CHR ''0''"] of_char_lower)

lemma lower_char_x [simp]: "lower_char c = CHR ''x'' \<longleftrightarrow> c = CHR ''x'' \<or> c = CHR ''X''"
  by (auto simp: char_eq_nat [of _ "CHR ''x''"] char_eq_nat [of _ "CHR ''X''"] of_char_lower)

lemma lower_char_0_sym [simp]: "CHR ''0'' = lower_char c \<longleftrightarrow> c = CHR ''0''"
  using lower_char_0 [of c] by (simp only: eq_commute [of "CHR ''0''"])

lemma lower_char_x_sym [simp]: "CHR ''x'' = lower_char c \<longleftrightarrow> c = CHR ''x'' \<or> c = CHR ''X''"
  using lower_char_x [of c] by (simp only: eq_commute [of "CHR ''x''"])

lemma prefix_0x_lower:
  "prefix ''0x'' (str_lower s) \<longleftrightarrow> take 2 s = ''0x'' \<or> take 2 s = ''0X''"
proof (cases s)
  case Nil
  then show ?thesis by (simp add: str_lower_def)
next
  case (Cons a t)
  note s = this
  show ?thesis
  proof (cases t)
    case Nil
    with s show ?thesis by (simp add: str_lower_def)
  next
    case (Cons b u)
    with s show ?thesis by (auto simp: str_lower_def)
  qed
qed

section \<open>The sitekey validator: properties\<close>

text \<open>What the function computes: the inner test bounds the total length by 30.\<close>

lemma valid_sitekey_char:
  "is_valid_turnstile_sitekey s \<longleftrightarrow>
     22 \<le> length s \<and> length s \<le> 30 \<and> (take 2 s = ''0x'' \<or> take 2 s = ''0X'')
     \<and> (\<forall>c \<in> set (drop 2 s). isalnum c)"
  by (auto simp: is_valid_turnstile_sitekey_def prefix_0x_lower list_all_iff)

text \<open>
  Claim C1: the validator accepts a string if and only if its length is between 22 and 35,
  it starts with \<open>0x\<close> or \<open>0X\<close> and every later character is alphanumeric. The code does
  not: the string \<open>0x\<close> followed by 29 letters \<open>A\<close> has 31 characters, passes the first guard
  (at most 35), has the prefix and only alphanumeric characters after it, and lies in the
  range of the docstring (20 to 30 characters after \<open>0x\<close>), yet the function returns
  \<open>False\<close>, because the inner test compares the total length, prefix included, with 30.
\<close>

theorem sitekey_of_length_31_rejected:
  "length ''0xAAAAAAAAAAAAAAAAAAAAAAAAAAAAA'' = 31
   \<and> length (drop 2 ''0xAAAAAAAAAAAAAAAAAAAAAAAAAAAAA'') = 29
   \<and> prefix ''0x'' (str_lower ''0xAAAAAAAAAAAAAAAAAAAAAAAAAAAAA'')
   \<and> list_all isalnum (drop 2 ''0xAAAAAAAAAAAAAAAAAAAAAAAAAAAAA'')
   \<and> \<not> is_valid_turnstile_sitekey ''0xAAAAAAAAAAAAAAAAAAAAAAAAAAAAA''"
  by (simp add: is_valid_turnstile_sitekey_def str_lower_def lower_char_def isalnum_def
        ascii_alnum_def)

section \<open>Challenge detection: properties\<close>

lemma inspect_content_fault:
  "settle p \<noteq> None \<or> isl (content p) \<or> isl (inner_text p) \<Longrightarrow> inspect_content p \<noteq> Inr True"
  by (auto simp: inspect_content_def isl_def split: option.splits sum.splits)

text \<open>
  Claim C2, as stated: every fault during detection makes \<open>is_session_valid\<close> return
  \<open>False\<close>. The inner \<open>try\<close> swallows a fault of the content inspection ("assume valid"):
  on a page whose markup cannot be read and whose URL is not a challenge URL the function
  returns \<open>True\<close>.
\<close>

theorem unreadable_content_counts_as_valid:
  "is_session_valid
     \<lparr>url_first = Inr ''https://example.test/'', settle = None,
      content = Inl PlaywrightError, inner_text = Inr ''welcome'',
      url_final = Inr ''https://example.test/''\<rparr> default_pattern"
  by code_simp

text \<open>
  Claim C2, amended: a fault while reading the page URL, at entry or after the settle delay,
  makes \<open>is_session_valid\<close> return \<open>False\<close>. A fault of the settle delay or of reading the
  markup or the rendered text is ignored: the result is then \<open>True\<close> exactly when both URL
  reads succeed and neither URL contains the challenge pattern.
\<close>

theorem is_session_valid_faults:
  "(isl (url_first p) \<longrightarrow> \<not> is_session_valid p pat)
   \<and> (isl (url_final p) \<longrightarrow> \<not> is_session_valid p pat)
   \<and> (settle p \<noteq> None \<or> isl (content p) \<or> isl (inner_text p) \<longrightarrow>
        is_session_valid p pat =
          (case (url_first p, url_final p) of
             (Inr u, Inr v) \<Rightarrow> \<not> str_contains pat u \<and> \<not> str_contains pat v
           | _ \<Rightarrow> False))"
proof (intro conjI impI)
  assume "isl (url_first p)"
  then show "\<not> is_session_valid p pat"
    by (auto simp: is_session_valid_def isl_def)
next
  assume "isl (url_final p)"
  then show "\<not> is_session_valid p pat"
    by (auto simp: is_session_valid_def isl_def split: sum.splits bool.splits)
next
  assume "settle p \<noteq> None \<or> isl (content p) \<or> isl (inner_text p)"
  then have "inspect_content p \<noteq> Inr True" by (rule inspect_content_fault)
  then show "is_session_valid p pat =
          (case (url_first p, url_final p) of
             (Inr u, Inr v) \<Rightarrow> \<not> str_contains pat u \<and> \<not> str_contains pat v
           | _ \<Rightarrow> False)"
    by (auto simp: is_session_valid_def split: sum.splits bool.splits)
qed

theorem is_session_valid_faults_witness:
  "\<not> is_session_valid
       \<lparr>url_first = Inl PlaywrightError, settle = None, content = Inr ''<html></html>'',
        inner_text = Inr '''', url_final = Inr ''https://example.test/''\<rparr> default_pattern
   \<and> \<not> is_session_valid
       \<lparr>url_first = Inr ''https://example.test/'', settle = None, content = Inr ''<html></html>'',
        inner_text = Inr '''', url_final = Inl PlaywrightError\<rparr> default_pattern
   \<and> is_session_valid
       \<lparr>url_first = Inr ''https://example.test/'', settle = None, content = Inl PlaywrightError,
        inner_text = Inr ''just a moment'', url_final = Inr ''https://example.test/''\<rparr> default_pattern"
proof -
  let ?p1 = "\<lparr>url_first = Inl PlaywrightError, settle = None, content = Inr ''<html></html>'',
        inner_text = Inr '''', url_final = Inr ''https://example.test/''\<rparr>"
  let ?p2 = "\<lparr>url_first = Inr ''https://example.test/'', settle = None, content = Inr ''<html></html>'',
        inner_text = Inr '''', url_final = Inl PlaywrightError\<rparr>"
  let ?p3 = "\<lparr>url_first = Inr ''https://example.test/'', settle = None, content = Inl PlaywrightError,
        inner_text = Inr ''just a moment'', url_final = Inr ''https://example.test/''\<rparr>"
  have a: "\<not> is_session_valid ?p1 default_pattern"
    using is_session_valid_faults [of ?p1 default_pattern] by simp
  have b: "\<not> is_session_valid ?p2 default_pattern"
    using is_session_valid_faults [of ?p2 default_pattern] by simp
  have c: "is_session_valid ?p3 default_pattern"
    using is_session_valid_faults [of ?p3 default_pattern] by (simp add: default_pattern_def)
  from a b c show ?thesis by blast
qed

section \<open>Session storage: properties\<close>

lemma split_slash_no_slash: "CHR ''/'' \<notin> set s \<Longrightarrow> split_slash s = [s]"
  by (induction s) auto

lemma replace_dot_no_slash: "CHR ''/'' \<notin> set d \<Longrightarrow> CHR ''/'' \<notin> set (replace_dot d)"
  by (auto simp: replace_dot_def)

lemma replace_dot_inj:
  "CHR ''_'' \<notin> set d1 \<Longrightarrow> CHR ''_'' \<notin> set d2 \<Longrightarrow> replace_dot d1 = replace_dot d2 \<Longrightarrow> d1 = d2"
proof (induction d1 arbitrary: d2)
  case Nil
  then show ?case by (simp add: replace_dot_def)
next
  case (Cons a d1)
  then obtain b d2' where d2: "d2 = b # d2'" by (cases d2) (auto simp: replace_dot_def)
  with Cons.prems have ab: "(if a = CHR ''.'' then CHR ''_'' else a) = (if b = CHR ''.'' then CHR ''_'' else b)"
    and rest: "replace_dot d1 = replace_dot d2'"
    by (simp_all add: replace_dot_def)
  from ab Cons.prems d2 have "a = b" by (auto split: if_splits)
  moreover from Cons.IH [of d2'] Cons.prems d2 rest have "d1 = d2'" by simp
  ultimately show ?case using d2 by simp
qed

lemma session_path_simple:
  assumes "CHR ''/'' \<notin> set d"
  shows "get_session_path d = [''.sessions'', ''cloudflare_'' @ replace_dot d @ ''.json'']"
proof -
  have "CHR ''/'' \<notin> set (''cloudflare_'' @ replace_dot d @ ''.json'')"
    using replace_dot_no_slash [OF assms] by simp
  then have "split_slash (''cloudflare_'' @ replace_dot d @ ''.json'')
      = [''cloudflare_'' @ replace_dot d @ ''.json'']"
    by (rule split_slash_no_slash)
  then have "path_parts (''cloudflare_'' @ replace_dot d @ ''.json'')
      = [''cloudflare_'' @ replace_dot d @ ''.json'']"
    by (simp add: path_parts_def)
  moreover have "SESSION_DIR = [''.sessions'']"
    by (simp add: SESSION_DIR_def path_parts_def)
  ultimately show ?thesis
    by (simp add: get_session_path_def path_join_def Let_def)
qed

text \<open>
  Claim C3, as stated: distinct domain names have distinct session paths. Replacing the dots
  by underscores maps \<open>a.b\<close> and \<open>a_b\<close> to one file name, and a path ignores a doubled slash.
\<close>

theorem session_paths_collide:
  "''a.b'' \<noteq> ''a_b'' \<and> get_session_path ''a.b'' = get_session_path ''a_b''
   \<and> ''a/b'' \<noteq> ''a//b'' \<and> get_session_path ''a/b'' = get_session_path ''a//b''"
  by (simp add: get_session_path_def replace_dot_def path_join_def path_parts_def SESSION_DIR_def)

text \<open>
  Claim C3, amended: two distinct domain names that contain neither an underscore nor a
  slash have distinct session paths.
\<close>

theorem session_path_injective:
  assumes "CHR ''_'' \<notin> set d1" and "CHR ''_'' \<notin> set d2"
    and "CHR ''/'' \<notin> set d1" and "CHR ''/'' \<notin> set d2"
    and "d1 \<noteq> d2"
  shows "get_session_path d1 \<noteq> get_session_path d2"
proof
  assume "get_session_path d1 = get_session_path d2"
  then have "replace_dot d1 = replace_dot d2"
    using assms(3,4) by (simp add: session_path_simple)
  then have "d1 = d2" using assms(1,2) by (rule replace_dot_inj [rotated 2])
  with assms(5) show False by contradiction
qed

theorem session_path_injective_witness:
  "CHR ''_'' \<notin> set ''ecorp.sos.ga.gov'' \<and> CHR ''_'' \<notin> set ''example.test''
   \<and> CHR ''/'' \<notin> set ''ecorp.sos.ga.gov'' \<and> CHR ''/'' \<notin> set ''example.test''
   \<and> ''ecorp.sos.ga.gov'' \<noteq> ''example.test''
   \<and> get_session_path ''ecorp.sos.ga.gov'' \<noteq> get_session_path ''example.test''"
  using session_path_injective [of "''ecorp.sos.ga.gov''" "''example.test''"] by simp




lemma any_cf_clearance_none:
  "\<forall>c \<in> set cs. json_get c ''name'' JNull \<noteq> Inr (JStr ''cf_clearance'')
    \<Longrightarrow> any_cf_clearance cs \<noteq> Inr True"
  by (induction cs) (auto split: sum.splits)

lemma load_keeps_parsed_file:
  "fs (get_session_path domain) = Some text \<Longrightarrow> json_load text = Inr session_data
    \<Longrightarrow> snd (load_cloudflare_session json_load new_context fs domain) = fs"
  by (auto simp: load_cloudflare_session_def load_body_def Let_def split: sum.splits)

text \<open>
  Claim C7: when the session file of a domain parses and no member of its cookie list is
  named \<open>cf_clearance\<close>, \<open>load_cloudflare_session\<close> returns \<open>None\<close> and storage is
  unchanged, so the file stays on disk with its contents.
\<close>

theorem load_without_clearance_cookie:
  assumes "fs (get_session_path domain) = Some text"
    and "json_load text = Inr session_data"
    and "\<forall>cookies cs. json_get session_data ''cookies'' (JArr []) = Inr cookies
            \<longrightarrow> py_iter cookies = Inr cs
            \<longrightarrow> (\<forall>c \<in> set cs. json_get c ''name'' JNull \<noteq> Inr (JStr ''cf_clearance''))"
  shows "load_cloudflare_session json_load new_context fs domain = (None, fs)"
proof -
  have "\<And>cookies cs. json_get session_data ''cookies'' (JArr []) = Inr cookies
          \<Longrightarrow> py_iter cookies = Inr cs \<Longrightarrow> any_cf_clearance cs \<noteq> Inr True"
    using assms(3) any_cf_clearance_none by blast
  then show ?thesis
    using assms(1,2)
    by (auto simp: load_cloudflare_session_def load_body_def Let_def split: sum.splits)
qed

theorem load_without_clearance_cookie_witness:
  "load_cloudflare_session
     (\<lambda>t. if t = ''{...}''
           then Inr (JObj [(''cookies'', JArr [JObj [(''name'', JStr ''session_id''), (''value'', JStr ''1'')]]),
                           (''origins'', JArr [])])
           else Inl JSONDecodeError)
     (\<lambda>p. Inr (1::nat))
     [get_session_path ''example.test'' \<mapsto> ''{...}'']
     ''example.test''
   = (None, [get_session_path ''example.test'' \<mapsto> ''{...}''])"
proof -
  let ?doc = "JObj [(''cookies'', JArr [JObj [(''name'', JStr ''session_id''), (''value'', JStr ''1'')]]),
                           (''origins'', JArr [])]"
  let ?load = "\<lambda>t. if t = ''{...}'' then Inr ?doc else Inl JSONDecodeError"
  let ?fs = "[get_session_path ''example.test'' \<mapsto> ''{...}'']"
  have h: "\<forall>cookies cs. json_get ?doc ''cookies'' (JArr []) = Inr cookies
            \<longrightarrow> py_iter cookies = Inr cs
            \<longrightarrow> (\<forall>c \<in> set cs. json_get c ''name'' JNull \<noteq> Inr (JStr ''cf_clearance''))"
    by (auto simp: json_get_def py_iter_def)
  show ?thesis
    using load_without_clearance_cookie [of ?fs "''example.test''" "''{...}''" ?load ?doc "\<lambda>p. Inr (1::nat)", OF _ _ h]
    by simp
qed

text \<open>
  Claim C10: \<open>clear_session\<close> returns \<open>False\<close>, and changes nothing, when the domain has no
  session file; when it returns \<open>True\<close> the file existed and has been deleted.
\<close>

theorem clear_session_outcome:
  "(fs (get_session_path domain) = None \<longrightarrow> clear_session fs domain = (False, fs))
   \<and> (fst (clear_session fs domain) \<longrightarrow>
        fs (get_session_path domain) \<noteq> None
        \<and> snd (clear_session fs domain) = fs(get_session_path domain := None))"
  by (simp add: clear_session_def Let_def)

theorem clear_session_outcome_witness:
  "clear_session Map.empty ''example.test'' = (False, Map.empty)
   \<and> fst (clear_session [get_session_path ''example.test'' \<mapsto> ''{}''] ''example.test'')
   \<and> snd (clear_session [get_session_path ''example.test'' \<mapsto> ''{}''] ''example.test'') = Map.empty"
proof -
  have a: "clear_session Map.empty ''example.test'' = (False, Map.empty)"
    using clear_session_outcome [of Map.empty "''example.test''"] by simp
  have f: "fst (clear_session [get_session_path ''example.test'' \<mapsto> ''{}''] ''example.test'')"
    by (simp add: clear_session_def Let_def)
  have b: "snd (clear_session [get_session_path ''example.test'' \<mapsto> ''{}''] ''example.test'') = Map.empty"
    using f clear_session_outcome [of "[get_session_path ''example.test'' \<mapsto> ''{}'']" "''example.test''"]
    by simp
  from a f b show ?thesis by blast
qed

section \<open>Sitekey extraction: properties\<close>

lemmas char_eval = str_lower_def lower_char_def char_of_eq_iff isalnum_def ascii_alnum_def

lemma known_sitekey_valid: "is_valid_turnstile_sitekey ''0x4AAAAAAADnPIDROrmt1Wwj''"
  by (simp add: is_valid_turnstile_sitekey_def char_eval)



lemma validated_valid: "validated m = Some k \<Longrightarrow> is_valid_turnstile_sitekey k"
  by (auto simp: validated_def split: option.splits if_splits)

lemma checked_valid: "checked m = Some k \<Longrightarrow> is_valid_turnstile_sitekey k"
  by (auto simp: checked_def split: option.splits if_splits)

lemma extract_url_valid:
  "extract_sitekey_from_url url = Some k \<Longrightarrow> is_valid_turnstile_sitekey k"
  by (auto simp: extract_sitekey_from_url_def split: if_splits option.splits
           dest: validated_valid)

lemma search_text_valid: "search_text t = Some k \<Longrightarrow> is_valid_turnstile_sitekey k"
  by (auto simp: search_text_def split: option.splits dest: validated_valid)

lemma check_headers_valid: "check_headers hs = Some k \<Longrightarrow> is_valid_turnstile_sitekey k"
proof (induction hs)
  case Nil
  then show ?case by simp
next
  case (Cons h hs)
  obtain key v where h: "h = (key, v)" by (cases h)
  from Cons.prems Cons.IH show ?case
    unfolding h by (auto split: if_splits option.splits dest: validated_valid)
qed

lemma extract_network_data_valid:
  "extract_sitekey_from_network_data d = Some k \<Longrightarrow> is_valid_turnstile_sitekey k"
  unfolding extract_sitekey_from_network_data_def Let_def
  by (auto split: option.splits if_splits
           dest: checked_valid search_text_valid check_headers_valid)

lemma scan_requests_valid: "scan_requests reqs = Some k \<Longrightarrow> is_valid_turnstile_sitekey k"
  by (induction reqs) (auto split: option.splits dest: checked_valid)

lemma handle_request_cache:
  "cache_valid ext \<Longrightarrow> cache_valid (handle_request ext url method hdrs post_data)"
  by (auto simp: handle_request_def cache_valid_def Let_def
           split: option.splits dest: extract_network_data_valid)

lemma handle_response_cache:
  "cache_valid ext \<Longrightarrow> cache_valid (handle_response ext url st hdrs body)"
  by (auto simp: handle_response_def cache_valid_def Let_def
           split: option.splits dest: extract_network_data_valid)

lemma deliver_cache: "cache_valid ext \<Longrightarrow> cache_valid (deliver ext evs)"
proof (induction evs arbitrary: ext)
  case Nil
  then show ?case by simp
next
  case (Cons ev evs)
  then show ?case
    by (cases ev) (simp_all add: handle_request_cache handle_response_cache)
qed

lemma get_sitekey_cache:
  assumes "cache_valid ext" and "get_sitekey ext arriving wait_fault = (r, ext')"
  shows "cache_valid ext' \<and> (\<forall>k. r = Inr (Some k) \<longrightarrow> is_valid_turnstile_sitekey k)"
proof -
  let ?ext2 = "deliver (ext\<lparr>monitoring_setup := True\<rparr>) arriving"
  have "cache_valid (ext\<lparr>monitoring_setup := True\<rparr>)"
    using assms(1) by (simp add: cache_valid_def)
  then have c2: "cache_valid ?ext2" by (rule deliver_cache)
  show ?thesis
    using assms c2 unfolding get_sitekey_def Let_def
    by (auto simp: cache_valid_def split: if_splits option.splits
             dest: scan_requests_valid)
qed

lemma reachable_cache: "reachable ext \<Longrightarrow> cache_valid ext"
proof (induction rule: reachable.induct)
  case (reach_fresh buffer m)
  show ?case by (simp add: cache_valid_def)
next
  case (reach_setup ext)
  then show ?case by (simp add: cache_valid_def)
next
  case (reach_request ext url meth hs post_data)
  then show ?case by (simp add: handle_request_cache)
next
  case (reach_response ext url st hdrs body)
  then show ?case by (simp add: handle_response_cache)
next
  case (reach_call ext arriving wait_fault r ext')
  then show ?case using get_sitekey_cache by blast
qed

text \<open>
  Claim C9: in every state the extractor can reach, whatever the buffer of captured
  requests and whatever events arrive during the wait, a value other than \<open>None\<close> that
  \<open>get_sitekey\<close> returns is accepted by the validator.
\<close>

theorem get_sitekey_returns_validated:
  assumes "reachable ext"
    and "get_sitekey ext arriving wait_fault = (Inr (Some k), ext')"
  shows "is_valid_turnstile_sitekey k"
  using get_sitekey_cache [OF reachable_cache [OF assms(1)] assms(2)] by simp

theorem get_sitekey_returns_validated_witness:
  "get_sitekey
     \<lparr>captured_requests =
        [\<lparr>nd_url = ''https://x.test/a'', nd_method = Some ''GET'', nd_status = None,
          nd_headers = [(''cf-sitekey'', ''0x4AAAAAAADnPIDROrmt1Wwj'')],
          nd_post_data = None, nd_body = None\<rparr>],
      sitekey_from_network = None, monitoring_setup = False\<rparr> [] None
   = (Inr (Some ''0x4AAAAAAADnPIDROrmt1Wwj''),
      \<lparr>captured_requests =
        [\<lparr>nd_url = ''https://x.test/a'', nd_method = Some ''GET'', nd_status = None,
          nd_headers = [(''cf-sitekey'', ''0x4AAAAAAADnPIDROrmt1Wwj'')],
          nd_post_data = None, nd_body = None\<rparr>],
      sitekey_from_network = Some ''0x4AAAAAAADnPIDROrmt1Wwj'', monitoring_setup = False\<rparr>)
   \<and> is_valid_turnstile_sitekey ''0x4AAAAAAADnPIDROrmt1Wwj''"
proof -
  let ?r = "\<lparr>nd_url = ''https://x.test/a'', nd_method = Some ''GET'', nd_status = None,
          nd_headers = [(''cf-sitekey'', ''0x4AAAAAAADnPIDROrmt1Wwj'')],
          nd_post_data = None, nd_body = None\<rparr>"
  let ?ext = "\<lparr>captured_requests = [?r], sitekey_from_network = None, monitoring_setup = False\<rparr>"
  have nt: "\<not> str_contains ''turnstile'' (str_lower ''https://x.test/a'')"
    by (simp add: char_eval)
  have hk: "str_contains ''sitekey'' (str_lower ''cf-sitekey'')"
    by (simp add: char_eval)
  have ex: "extract_sitekey_from_network_data ?r = Some ''0x4AAAAAAADnPIDROrmt1Wwj''"
    using nt hk known_sitekey_valid
    by (simp add: extract_sitekey_from_network_data_def extract_sitekey_from_url_def
          checked_def)
  have eq: "get_sitekey ?ext [] None
      = (Inr (Some ''0x4AAAAAAADnPIDROrmt1Wwj''),
         ?ext\<lparr>sitekey_from_network := Some ''0x4AAAAAAADnPIDROrmt1Wwj''\<rparr>)"
    using nt ex known_sitekey_valid
    by (simp add: get_sitekey_def cached_def is_turnstile_request_def checked_def)
  have "is_valid_turnstile_sitekey ''0x4AAAAAAADnPIDROrmt1Wwj''"
    by (rule get_sitekey_returns_validated [OF reach_fresh eq])
  with eq show ?thesis by simp
qed

lemma not_alnum_slash [simp]: "\<not> ascii_alnum CHR ''/''"
  by (simp add: ascii_alnum_def)











section \<open>Solving the challenge: properties\<close>

lemma deliver_token_counts:
  "deliver_token w attempt solution token domain st = (r, st')
    \<Longrightarrow> st_slept st' = st_slept st \<and> st_http_log st' = st_http_log st"
  by (auto simp: deliver_token_def split: sum.splits option.splits if_splits)

lemma poll_once_counts:
  assumes "poll_once w key task_id domain attempt st = (r, st')"
  shows "poll_count st' = Suc (poll_count st) \<and> st_slept st' = st_slept st + poll_interval"
  using assms unfolding poll_once_def Let_def
  by (auto simp: poll_count_def split: sum.splits if_splits dest!: deliver_token_counts)

lemma poll_loop_bound:
  "\<exists>m\<le>n. poll_count (snd (poll_loop w key task_id domain n attempt st)) = poll_count st + m
        \<and> st_slept (snd (poll_loop w key task_id domain n attempt st))
            = st_slept st + poll_interval * m"
proof (induction n arbitrary: attempt st)
  case 0
  show ?case by simp
next
  case (Suc n)
  obtain r st' where po: "poll_once w key task_id domain attempt st = (r, st')"
    by (cases "poll_once w key task_id domain attempt st")
  note c = poll_once_counts [OF po]
  show ?case
  proof (cases "r = Inr False")
    case False
    then have "snd (poll_loop w key task_id domain (Suc n) attempt st) = st'"
      using po by (cases r) auto
    with c have "poll_count (snd (poll_loop w key task_id domain (Suc n) attempt st))
          = poll_count st + 1
        \<and> st_slept (snd (poll_loop w key task_id domain (Suc n) attempt st))
          = st_slept st + poll_interval * 1" by simp
    moreover have "(1::nat) \<le> Suc n" by simp
    ultimately show ?thesis by blast
  next
    case True
    then have eq: "poll_loop w key task_id domain (Suc n) attempt st
        = poll_loop w key task_id domain n (Suc attempt) st'"
      using po by simp
    from Suc.IH [of "Suc attempt" st'] obtain m where m: "m \<le> n"
      and pc: "poll_count (snd (poll_loop w key task_id domain n (Suc attempt) st'))
                = poll_count st' + m"
      and sl: "st_slept (snd (poll_loop w key task_id domain n (Suc attempt) st'))
                = st_slept st' + poll_interval * m"
      by blast
    from m pc sl c eq
    have "Suc m \<le> Suc n
        \<and> poll_count (snd (poll_loop w key task_id domain (Suc n) attempt st))
            = poll_count st + Suc m
        \<and> st_slept (snd (poll_loop w key task_id domain (Suc n) attempt st))
            = st_slept st + poll_interval * Suc m" by simp
    then show ?thesis by blast
  qed
qed

lemma poll_once_processing:
  assumes "\<forall>attempt payload. \<exists>kvs. w_get_task_result w attempt payload = Inr (JObj kvs)
              \<and> map_of kvs ''status'' = Some (JStr ''processing'')"
  shows "poll_once w key task_id domain attempt st
         = (Inr False,
            st\<lparr>st_slept := st_slept st + poll_interval,
               st_http_log := st_http_log st
                  @ [(GetTaskResult, JObj [(''clientKey'', JStr key), (''taskId'', task_id)])]\<rparr>)"
proof -
  from assms obtain kvs where
    "w_get_task_result w attempt (JObj [(''clientKey'', JStr key), (''taskId'', task_id)])
       = Inr (JObj kvs)"
    and "map_of kvs ''status'' = Some (JStr ''processing'')" by blast
  then show ?thesis by (simp add: poll_once_def Let_def json_get_def)
qed

lemma poll_loop_processing:
  assumes "\<forall>attempt payload. \<exists>kvs. w_get_task_result w attempt payload = Inr (JObj kvs)
              \<and> map_of kvs ''status'' = Some (JStr ''processing'')"
  shows "fst (poll_loop w key task_id domain n attempt st) = Inl SolveTimeout
     \<and> poll_count (snd (poll_loop w key task_id domain n attempt st)) = poll_count st + n
     \<and> st_slept (snd (poll_loop w key task_id domain n attempt st))
         = st_slept st + poll_interval * n
     \<and> st_files (snd (poll_loop w key task_id domain n attempt st)) = st_files st"
proof (induction n arbitrary: attempt st)
  case 0
  show ?case by simp
next
  case (Suc n)
  let ?st1 = "st\<lparr>st_slept := st_slept st + poll_interval,
               st_http_log := st_http_log st
                  @ [(GetTaskResult, JObj [(''clientKey'', JStr key), (''taskId'', task_id)])]\<rparr>"
  have eq: "poll_loop w key task_id domain (Suc n) attempt st
      = poll_loop w key task_id domain n (Suc attempt) ?st1"
    by (simp add: poll_once_processing [OF assms])
  have "poll_count ?st1 = Suc (poll_count st)" by (simp add: poll_count_def)
  with Suc.IH [of "Suc attempt" ?st1] show ?case
    by (simp only: eq) simp
qed

text \<open>
  Claim C8: when the variable \<open>TWOCAPTCHA_API_KEY\<close> is absent, \<open>solve_cloudflare_challenge\<close>
  returns \<open>False\<close> without raising, whatever the page, the domain, the sitekey and the
  captured parameters are; it has sent no request to the service, has not slept and has not
  touched the session files.
\<close>

theorem solve_without_api_key:
  assumes "api_key env = None"
  shows "solve_cloudflare_challenge env w files0 domain sitekey turnstile_params
         = Inr (False, \<lparr>st_slept = 0, st_http_log = [], st_files = files0\<rparr>)"
  using assms by (simp add: solve_cloudflare_challenge_def Let_def)

theorem solve_without_api_key_witness:
  "solve_cloudflare_challenge
     \<lparr>api_key = None, twocaptcha_available = True, requests_importable = True\<rparr>
     \<lparr>w_page_url = Inr ''https://example.test/'', w_navigator_user_agent = Inr ''UA'',
      w_create_task = (\<lambda>p. Inr (JObj [(''errorId'', JInt 0), (''taskId'', JInt 7)])),
      w_get_task_result = (\<lambda>n p. Inr (JObj [(''status'', JStr ''processing'')])),
      w_current_user_agent = (\<lambda>n. Inr ''UA''), w_override_user_agent = (\<lambda>n u. None),
      w_inject_token = (\<lambda>n t. Inr (JObj [(''success'', JBool True)])),
      w_settle_after_injection = (\<lambda>n. None),
      w_page_after_injection = (\<lambda>n. \<lparr>url_first = Inr '''', settle = None, content = Inr '''',
                                     inner_text = Inr '''', url_final = Inr ''''\<rparr>),
      w_storage_state = (\<lambda>n. Inr ''{}'')\<rparr>
     Map.empty ''example.test'' ''0x4AAAAAAADnPIDROrmt1Wwj'' JNull
   = Inr (False, \<lparr>st_slept = 0, st_http_log = [], st_files = Map.empty\<rparr>)"
  by (rule solve_without_api_key) simp

lemma solve_fails_bounded:
  assumes "\<forall>attempt payload. \<exists>kvs. w_get_task_result w attempt payload = Inr (JObj kvs)
              \<and> map_of kvs ''status'' = Some (JStr ''processing'')"
  shows "fst (solve_body key w files0 domain sitekey turnstile_params) \<noteq> Inr True
       \<and> poll_count (snd (solve_body key w files0 domain sitekey turnstile_params)) \<le> 30
       \<and> st_slept (snd (solve_body key w files0 domain sitekey turnstile_params))
          = 5 * poll_count (snd (solve_body key w files0 domain sitekey turnstile_params))"
  using poll_loop_processing [OF assms, of key _ domain max_attempts 0]
  unfolding solve_body_def Let_def
  by (auto simp: poll_count_def max_attempts_def poll_interval_def split: sum.splits)

lemma solve_body_timeout:
  assumes "\<forall>attempt payload. \<exists>kvs. w_get_task_result w attempt payload = Inr (JObj kvs)
              \<and> map_of kvs ''status'' = Some (JStr ''processing'')"
    and "w_page_url w = Inr u" and "w_navigator_user_agent w = Inr ua"
    and "build_task_payload u sitekey ua turnstile_params = Inr tp"
    and "w_create_task w (JObj [(''clientKey'', JStr key), (''task'', tp)]) = Inr (JObj cr)"
    and "map_of cr ''errorId'' = Some (JInt 0)"
  shows "fst (solve_body key w files0 domain sitekey turnstile_params) = Inl SolveTimeout
       \<and> poll_count (snd (solve_body key w files0 domain sitekey turnstile_params)) = 30
       \<and> st_slept (snd (solve_body key w files0 domain sitekey turnstile_params)) = 150
       \<and> st_files (snd (solve_body key w files0 domain sitekey turnstile_params)) = files0"
  using poll_loop_processing [OF assms(1), of key _ domain max_attempts 0] assms(2-)
  unfolding solve_body_def Let_def
  by (simp add: json_get_def py_is_zero_def poll_count_def max_attempts_def poll_interval_def)

text \<open>
  Claim C5: when every poll of the service answers \<open>processing\<close>,
  \<open>solve_cloudflare_challenge\<close> returns \<open>False\<close> after at most 30 polls, having slept 5 time
  units before each of them; when the task was created, it has polled exactly 30 times and
  slept 150 time units. (The function is total: it returns for every behaviour of the
  service, and \<open>poll_loop_bound\<close> bounds its polls by 30 in general.)
\<close>

theorem solve_times_out_after_30_polls:
  assumes "\<forall>attempt payload. \<exists>kvs. w_get_task_result w attempt payload = Inr (JObj kvs)
              \<and> map_of kvs ''status'' = Some (JStr ''processing'')"
    and "requests_importable env"
  shows "\<exists>st. solve_cloudflare_challenge env w files0 domain sitekey turnstile_params
               = Inr (False, st)
           \<and> poll_count st \<le> 30 \<and> st_slept st = 5 * poll_count st
           \<and> (\<forall>key u ua tp cr.
                 api_key env = Some key \<longrightarrow> key \<noteq> [] \<longrightarrow> twocaptcha_available env \<longrightarrow>
                 w_page_url w = Inr u \<longrightarrow> w_navigator_user_agent w = Inr ua \<longrightarrow>
                 build_task_payload u sitekey ua turnstile_params = Inr tp \<longrightarrow>
                 w_create_task w (JObj [(''clientKey'', JStr key), (''task'', tp)])
                   = Inr (JObj cr) \<longrightarrow>
                 map_of cr ''errorId'' = Some (JInt 0) \<longrightarrow>
                 poll_count st = 30 \<and> st_slept st = 150)"
proof (cases "\<exists>key. api_key env = Some key \<and> key \<noteq> [] \<and> twocaptcha_available env")
  case False
  then have "solve_cloudflare_challenge env w files0 domain sitekey turnstile_params
      = Inr (False, \<lparr>st_slept = 0, st_http_log = [], st_files = files0\<rparr>)"
    by (auto simp: solve_cloudflare_challenge_def Let_def split: option.splits)
  with False show ?thesis by (auto simp: poll_count_def)
next
  case True
  then obtain key where k: "api_key env = Some key" "key \<noteq> []" "twocaptcha_available env"
    by blast
  let ?b = "solve_body key w files0 domain sitekey turnstile_params"
  note fb = solve_fails_bounded [OF assms(1), of key files0 domain sitekey turnstile_params]
  have res: "solve_cloudflare_challenge env w files0 domain sitekey turnstile_params
      = Inr (False, snd ?b)"
  proof (cases ?b)
    case (Pair r st)
    with fb have "r \<noteq> Inr True" by simp
    with Pair k assms(2) show ?thesis
      by (cases r) (auto simp: solve_cloudflare_challenge_def Let_def)
  qed
  have exact: "\<And>u ua tp cr. w_page_url w = Inr u \<Longrightarrow> w_navigator_user_agent w = Inr ua \<Longrightarrow>
      build_task_payload u sitekey ua turnstile_params = Inr tp \<Longrightarrow>
      w_create_task w (JObj [(''clientKey'', JStr key), (''task'', tp)]) = Inr (JObj cr) \<Longrightarrow>
      map_of cr ''errorId'' = Some (JInt 0) \<Longrightarrow>
      poll_count (snd ?b) = 30 \<and> st_slept (snd ?b) = 150"
    using solve_body_timeout [OF assms(1)] by blast
  from res fb exact k show ?thesis by auto
qed

theorem solve_times_out_after_30_polls_witness:
  "(case solve_cloudflare_challenge
     \<lparr>api_key = Some ''key'', twocaptcha_available = True, requests_importable = True\<rparr>
     \<lparr>w_page_url = Inr ''https://example.test/'', w_navigator_user_agent = Inr ''UA'',
      w_create_task = (\<lambda>p. Inr (JObj [(''errorId'', JInt 0), (''taskId'', JInt 7)])),
      w_get_task_result = (\<lambda>n p. Inr (JObj [(''status'', JStr ''processing'')])),
      w_current_user_agent = (\<lambda>n. Inr ''UA''), w_override_user_agent = (\<lambda>n u. None),
      w_inject_token = (\<lambda>n t. Inr (JObj [(''success'', JBool True)])),
      w_settle_after_injection = (\<lambda>n. None),
      w_page_after_injection = (\<lambda>n. \<lparr>url_first = Inr '''', settle = None, content = Inr '''',
                                     inner_text = Inr '''', url_final = Inr ''''\<rparr>),
      w_storage_state = (\<lambda>n. Inr ''{}'')\<rparr>
     Map.empty ''example.test'' ''0x4AAAAAAADnPIDROrmt1Wwj'' JNull of
     Inl e \<Rightarrow> False
   | Inr (returned, st) \<Rightarrow> \<not> returned \<and> poll_count st = 30 \<and> st_slept st = 150)"
proof -
  let ?env = "\<lparr>api_key = Some ''key'', twocaptcha_available = True, requests_importable = True\<rparr>"
  let ?w = "\<lparr>w_page_url = Inr ''https://example.test/'', w_navigator_user_agent = Inr ''UA'',
      w_create_task = (\<lambda>p. Inr (JObj [(''errorId'', JInt 0), (''taskId'', JInt 7)])),
      w_get_task_result = (\<lambda>n p. Inr (JObj [(''status'', JStr ''processing'')])),
      w_current_user_agent = (\<lambda>n. Inr ''UA''), w_override_user_agent = (\<lambda>n u. None),
      w_inject_token = (\<lambda>n t. Inr (JObj [(''success'', JBool True)])),
      w_settle_after_injection = (\<lambda>n. None),
      w_page_after_injection = (\<lambda>n. \<lparr>url_first = Inr '''', settle = None, content = Inr '''',
                                     inner_text = Inr '''', url_final = Inr ''''\<rparr>),
      w_storage_state = (\<lambda>n. Inr ''{}'')\<rparr>"
  have h1: "\<forall>attempt payload. \<exists>kvs. w_get_task_result ?w attempt payload = Inr (JObj kvs)
              \<and> map_of kvs ''status'' = Some (JStr ''processing'')"
    by simp
  have h2: "requests_importable ?env" by simp
  have tp: "build_task_payload ''https://example.test/'' ''0x4AAAAAAADnPIDROrmt1Wwj'' ''UA'' JNull
      = Inr (JObj [(''type'', JStr ''TurnstileTaskProxyless''),
                   (''websiteURL'', JStr ''https://example.test/''),
                   (''websiteKey'', JStr ''0x4AAAAAAADnPIDROrmt1Wwj''),
                   (''userAgent'', JStr ''UA'')])"
    by (simp add: build_task_payload_def)
  from solve_times_out_after_30_polls [OF h1 h2, of Map.empty "''example.test''"
      "''0x4AAAAAAADnPIDROrmt1Wwj''" JNull]
  obtain st where r: "solve_cloudflare_challenge ?env ?w Map.empty ''example.test''
        ''0x4AAAAAAADnPIDROrmt1Wwj'' JNull = Inr (False, st)"
    and ex: "\<forall>key u ua tp cr.
                 api_key ?env = Some key \<longrightarrow> key \<noteq> [] \<longrightarrow> twocaptcha_available ?env \<longrightarrow>
                 w_page_url ?w = Inr u \<longrightarrow> w_navigator_user_agent ?w = Inr ua \<longrightarrow>
                 build_task_payload u ''0x4AAAAAAADnPIDROrmt1Wwj'' ua JNull = Inr tp \<longrightarrow>
                 w_create_task ?w (JObj [(''clientKey'', JStr key), (''task'', tp)])
                   = Inr (JObj cr) \<longrightarrow>
                 map_of cr ''errorId'' = Some (JInt 0) \<longrightarrow>
                 poll_count st = 30 \<and> st_slept st = 150"
    by blast
  from ex [rule_format, of "''key''" "''https://example.test/''" "''UA''" _
      "[(''errorId'', JInt 0), (''taskId'', JInt 7)]", OF _ _ _ _ _ tp]
  have "poll_count st = 30 \<and> st_slept st = 150" by simp
  with r show ?thesis by simp
qed

end
